theory Spec2Isabelle
  imports Complex_Main "HOL-Library.Sublist" "HOL-Library.Log_Nat"
begin

section \<open>Synthetic fraud data generator: \<open>Data_Simulation/data_generate.py\<close>\<close>

text \<open>
  The module draws from two seeded generators: the global generator of Python's
  \<open>random\<close> module and the generator inside the \<open>Faker\<close> instance \<open>fake\<close>.
  Both are modelled as explicit state: an infinite stream of raw draws, of which every
  library call consumes the head. The library calls themselves are not code of the
  repository; each is modelled by its documented contract. A Python float is the
  rational number it stands for: \<open>fl\<close> rounds the exact result of an operation to
  the nearest double, as the hardware does, and a float literal is \<open>fl\<close> of its decimal.
\<close>

subsection \<open>Errors and results\<close>

datatype py_error = IndexError | ValueError

definition and_then :: "py_error + 'a \<Rightarrow> ('a \<Rightarrow> py_error + 'b) \<Rightarrow> py_error + 'b" where
  "and_then m k = (case m of Inl e \<Rightarrow> Inl e | Inr x \<Rightarrow> k x)"

subsection \<open>Floats\<close>

text \<open>
  \<open>round_half_even\<close> is rounding to the nearest integer, ties to the even one.
  \<open>binade x\<close> is the exponent \<open>e\<close> with \<open>2 ^ e \<le> x < 2 ^ (e + 1)\<close>, for a positive
  \<open>x\<close>, and the doubles of that binade are the multiples of \<open>ulp e\<close>, 52 binary
  places below. \<open>fl\<close> is round-to-nearest, ties-to-even, for magnitudes in the normal
  range of doubles; the magnitudes of this program lie between \<open>2 ^ - 53\<close> and 1000.
\<close>

definition round_half_even :: "rat \<Rightarrow> int" where
  "round_half_even y =
     (let f = \<lfloor>y\<rfloor>; d = y - of_int f
      in if d < 1 / 2 then f else if 1 / 2 < d then f + 1 else if even f then f else f + 1)"

definition binade :: "rat \<Rightarrow> int" where
  "binade x = (if 1 \<le> x then bitlen \<lfloor>x\<rfloor> - 1 else - bitlen (\<lceil>1 / x\<rceil> - 1))"

definition ulp :: "int \<Rightarrow> rat" where
  "ulp e = (if 52 \<le> e then 2 ^ nat (e - 52) else 1 / 2 ^ nat (52 - e))"

definition fl :: "rat \<Rightarrow> rat" where
  "fl x =
     (if x = 0 then 0
      else sgn x * (of_int (round_half_even (\<bar>x\<bar> / ulp (binade \<bar>x\<bar>))) * ulp (binade \<bar>x\<bar>)))"

subsection \<open>The \<open>random\<close> module\<close>

type_synonym rng = "nat \<Rightarrow> nat"

definition next_raw :: "rng \<Rightarrow> nat \<times> rng" where
  "next_raw g = (g 0, \<lambda>i. g (Suc i))"

text \<open>\<open>random.random()\<close>: a 53-bit draw scaled into the half-open interval from 0 to 1.\<close>

definition random_random :: "rng \<Rightarrow> rat \<times> rng" where
  "random_random g =
     (let (k, g') = next_raw g in (of_nat (k mod 2 ^ 53) / 2 ^ 53, g'))"

text \<open>\<open>random.randint(a, b)\<close> for \<open>a \<le> b\<close>: an integer between \<open>a\<close> and \<open>b\<close>, both included.\<close>

definition random_randint :: "int \<Rightarrow> int \<Rightarrow> rng \<Rightarrow> int \<times> rng" where
  "random_randint a b g =
     (let (k, g') = next_raw g in (a + int (k mod nat (b - a + 1)), g'))"

text \<open>
  \<open>random.uniform(a, b)\<close> is \<open>a + (b - a) * random()\<close>, for two integers: the
  difference is exact, the product and the sum are rounded.
\<close>

definition random_uniform :: "int \<Rightarrow> int \<Rightarrow> rng \<Rightarrow> rat \<times> rng" where
  "random_uniform a b g =
     (let (u, g') = random_random g in (fl (of_int a + fl (of_int (b - a) * u)), g'))"

text \<open>\<open>random.choice(seq)\<close> raises \<open>IndexError\<close> on an empty sequence.\<close>

definition random_choice :: "'a list \<Rightarrow> rng \<Rightarrow> py_error + ('a \<times> rng)" where
  "random_choice seq g =
     (if seq = [] then Inl IndexError
      else (let (k, g') = next_raw g in Inr (seq ! (k mod length seq), g')))"

text \<open>
  \<open>random.choices(population, weights)[0]\<close>: the weights are accumulated, a draw of
  \<open>random()\<close> is multiplied by their total (a float product), and \<open>bisect\<close> finds the
  first cumulative weight above it, no further than the last index.
\<close>

fun accumulate :: "rat \<Rightarrow> rat list \<Rightarrow> rat list" where
  "accumulate acc [] = []"
| "accumulate acc (x # xs) = (acc + x) # accumulate (acc + x) xs"

fun bisect :: "rat list \<Rightarrow> rat \<Rightarrow> nat" where
  "bisect [] x = 0"
| "bisect (c # cs) x = (if x < c then 0 else Suc (bisect cs x))"

definition random_choices :: "'a list \<Rightarrow> rat list \<Rightarrow> rng \<Rightarrow> 'a \<times> rng" where
  "random_choices population weights g =
     (let cum_weights = accumulate 0 weights;
          total = last cum_weights;
          hi = length population - 1;
          (u, g') = random_random g
      in (population ! min hi (bisect cum_weights (fl (u * total))), g'))"

text \<open>
  \<open>round(x, 2)\<close>: the exact value of the double, to the nearest hundredth, ties to the
  even neighbour. The result is kept as that decimal; the double nearest to it compares
  with an integer as the decimal does.
\<close>

definition round2 :: "rat \<Rightarrow> rat" where
  "round2 x = of_int (round_half_even (x * 100)) / 100"

subsection \<open>Strings\<close>

text \<open>\<open>s.startswith((p1, p2, ...))\<close>: some element of the tuple is a prefix of \<open>s\<close>.\<close>

fun startswith :: "string \<Rightarrow> string list \<Rightarrow> bool" where
  "startswith s [] = False"
| "startswith s (p # ps) = (prefix p s \<or> startswith s ps)"

text \<open>The format \<open>:04d\<close>: decimal digits, zero-padded to width four, sign first.\<close>

fun digits :: "nat \<Rightarrow> string" where
  "digits n = (if n < 10 then [''0123456789'' ! n]
               else digits (n div 10) @ [''0123456789'' ! (n mod 10)])"

declare digits.simps [simp del]

definition format_04d :: "int \<Rightarrow> string" where
  "format_04d i =
     (if i < 0
      then CHR ''-'' # replicate (3 - length (digits (nat (- i)))) CHR ''0'' @ digits (nat (- i))
      else replicate (4 - length (digits (nat i))) CHR ''0'' @ digits (nat i))"

subsection \<open>The environment: Faker, the clock and the string hash\<close>

record datetime =
  dt_year :: int
  dt_month :: int
  dt_day :: int
  dt_hour :: int
  dt_minute :: int
  dt_second :: int

text \<open>\<open>datetime.replace(hour=h)\<close> raises \<open>ValueError\<close> unless \<open>h\<close> is an hour of the day.\<close>

definition replace_hour :: "datetime \<Rightarrow> int \<Rightarrow> py_error + datetime" where
  "replace_hour dt h = (if 0 \<le> h \<and> h \<le> 23 then Inr (dt\<lparr>dt_hour := h\<rparr>) else Inl ValueError)"

text \<open>
  What the process supplies and the repository does not define: the providers of Faker,
  each a function of one raw draw of Faker's generator (\<open>date_time_between\<close> also reads
  the clock, for its window that ends \<open>now\<close>), and the builtin \<open>hash\<close> on strings,
  which CPython salts afresh in every process unless \<open>PYTHONHASHSEED\<close> is set.
\<close>

record env =
  py_hash :: "string \<Rightarrow> int"
  uuid4 :: "nat \<Rightarrow> string"
  date_time_between :: "nat \<Rightarrow> datetime"
  city :: "nat \<Rightarrow> string"
  state_abbr :: "nat \<Rightarrow> string"
  ipv4_private :: "nat \<Rightarrow> string"
  ipv4_public :: "nat \<Rightarrow> string"

definition fake :: "(nat \<Rightarrow> 'a) \<Rightarrow> rng \<Rightarrow> 'a \<times> rng" where
  "fake provider f = (let (k, f') = next_raw f in (provider k, f'))"

text \<open>The state of the two generators.\<close>

record world =
  rnd :: rng
  fkr :: rng

subsection \<open>The record synthesizer\<close>

record txn =
  transaction_id :: string
  user_id :: string
  transaction_timestamp :: datetime
  transaction_amount :: rat
  merchant_id :: string
  merchant_category :: string
  payment_method :: string
  ip_address :: string
  geolocation :: string
  device_id :: string
  device_type :: string
  transaction_type :: string
  transaction_status :: string
  is_fraud :: bool
  risk_score :: int

definition MERCHANTS :: "(string \<times> string) list" where
  "MERCHANTS =
     [(''amazon'', ''online''), (''walmart'', ''retail''), (''mcdonalds'', ''restaurant''),
      (''shell'', ''gas''), (''starbucks'', ''restaurant''), (''target'', ''retail''),
      (''uber'', ''transport''), (''netflix'', ''subscription''), (''paypal'', ''financial''),
      (''apple'', ''online''), (''google'', ''online''), (''microsoft'', ''online'')]"

definition COUNTRIES :: "string list" where
  "COUNTRIES = [''US'', ''GB'', ''DE'', ''FR'', ''CA'', ''IN'', ''BR'', ''ZA'', ''NG'', ''CN'', ''RU'']"

text \<open>\<open>amount_ranges.get(merchant_category, (10, 200))\<close>\<close>

definition amount_ranges :: "string \<Rightarrow> int \<times> int" where
  "amount_ranges c =
     (if c = ''restaurant'' then (5, 150)
      else if c = ''retail'' then (10, 500)
      else if c = ''gas'' then (20, 100)
      else if c = ''online'' then (15, 300)
      else if c = ''transport'' then (10, 80)
      else if c = ''subscription'' then (5, 50)
      else if c = ''financial'' then (50, 1000)
      else (10, 200))"

text \<open>Line 51: the gate is drawn first, then the hour from the range it selects.\<close>

definition draw_hour :: "rng \<Rightarrow> int \<times> rng" where
  "draw_hour g =
     (let (u, g1) = random_random g
      in if u < fl (7 / 10) then random_randint 8 22 g1 else random_randint 0 23 g1)"

text \<open>
  Lines 64 to 67: the amount, and its redraw below 300. The conjunction short-circuits,
  so the gate is drawn only for an amount above 300.
\<close>

definition draw_amount :: "string \<Rightarrow> rng \<Rightarrow> rat \<times> rng" where
  "draw_amount category g =
     (let (min_amt, max_amt) = amount_ranges category;
          (x, g1) = random_uniform min_amt max_amt g;
          amount = round2 x
      in if 300 < amount
         then (let (u, g2) = random_random g1
               in if u < fl (7 / 10)
                  then (let (y, g3) = random_uniform min_amt 300 g2 in (round2 y, g3))
                  else (amount, g2))
         else (amount, g1))"

text \<open>Line 77: the gate on the global generator, then one of Faker's two providers.\<close>

definition draw_ip :: "env \<Rightarrow> rng \<Rightarrow> rng \<Rightarrow> string \<times> rng \<times> rng" where
  "draw_ip e g f =
     (let (u, g1) = random_random g;
          (ip, f1) = (if u < fl (1 / 20) then fake (ipv4_private e) f else fake (ipv4_public e) f)
      in (ip, g1, f1))"

definition is_private_ip :: "string \<Rightarrow> bool" where
  "is_private_ip ip_addr = startswith ip_addr [''10.'', ''192.'', ''172.'']"

text \<open>Lines 93 to 100: the additive score before the noise.\<close>

definition fraud_score :: "rat \<Rightarrow> int \<Rightarrow> string \<Rightarrow> string \<Rightarrow> string \<Rightarrow> bool \<Rightarrow> int" where
  "fraud_score amount hour category method status private =
     (let s0 = 0;
          s1 = (if 500 < amount then s0 + 30 else s0);
          s2 = (if 1000 < amount then s1 + 20 else s1);
          s3 = (if hour < 6 \<or> 23 < hour then s2 + 15 else s2);
          s4 = (if category = ''online'' then s3 + 10 else s3);
          s5 = (if method = ''digital_wallet'' then s4 + 5 else s4);
          s6 = (if status = ''failed'' then s5 + 25 else s5);
          s7 = (if private then s6 + 20 else s6)
      in s7)"

text \<open>Line 104: the second draw is made only when the score is above 70.\<close>

definition draw_is_fraud :: "int \<Rightarrow> rng \<Rightarrow> bool \<times> rng" where
  "draw_is_fraud score g =
     (if 70 < score then (let (u, g1) = random_random g in (u < fl (3 / 10), g1)) else (False, g))"

text \<open>
  One pass of the loop body, in two parts. The local variables after line 100, with the
  state of the two generators there:
\<close>

record locals =
  l_user_id :: string
  l_merchant_name :: string
  l_merchant_category :: string
  l_device_type :: string
  l_hour :: int
  l_transaction_time :: datetime
  l_amount :: rat
  l_payment_method :: string
  l_location :: string
  l_ip_address :: string
  l_is_private_ip :: bool
  l_device_id :: string
  l_transaction_type :: string
  l_transaction_status :: string
  l_fraud_score :: int
  l_rnd :: rng
  l_fkr :: rng

text \<open>Lines 47 to 100.\<close>

definition draw_locals :: "env \<Rightarrow> string list \<Rightarrow> world \<Rightarrow> py_error + locals" where
  "draw_locals e users w =
     and_then (random_choice users (rnd w)) (\<lambda>(uid, g1).
     and_then (random_choice MERCHANTS g1) (\<lambda>((merchant_name, category), g2).
     and_then (random_choice [''mobile'', ''desktop'', ''tablet''] g2) (\<lambda>(dev_type, g3).
     let (hour, g4) = draw_hour g3;
         (dt, f1) = fake (date_time_between e) (fkr w)
     in and_then (replace_hour dt hour) (\<lambda>transaction_time.
     let (amount, g5) = draw_amount category g4;
         (method, g6) = random_choices
            [''credit_card'', ''debit_card'', ''digital_wallet'', ''bank_transfer'']
            [45, 35, 15, 5] g5
     in and_then (random_choice COUNTRIES g6) (\<lambda>(country, g7).
     let (cty, f2) = fake (city e) f1;
         (st, f3) = fake (state_abbr e) f2;
         location = cty @ '', '' @ st @ '', '' @ country;
         (ip, g8, f4) = draw_ip e g7 f3;
         private = is_private_ip ip;
         dev_id = ''device_'' @ format_04d (py_hash e uid mod 10000);
         (ttype, g9) = random_choices
            [''purchase'', ''withdrawal'', ''transfer'', ''refund'']
            [75, 15, 8, 2] g8;
         (status, g10) = random_choices
            [''completed'', ''failed'', ''pending'']
            [92, 6, 2] g9;
         score = fraud_score amount hour category method status private
     in Inr \<lparr>l_user_id = uid,
             l_merchant_name = merchant_name,
             l_merchant_category = category,
             l_device_type = dev_type,
             l_hour = hour,
             l_transaction_time = transaction_time,
             l_amount = amount,
             l_payment_method = method,
             l_location = location,
             l_ip_address = ip,
             l_is_private_ip = private,
             l_device_id = dev_id,
             l_transaction_type = ttype,
             l_transaction_status = status,
             l_fraud_score = score,
             l_rnd = g10,
             l_fkr = f4\<rparr>)))))"

text \<open>
  Lines 102 to 122: the noise, the clamp, the flag, the transaction identifier and the
  record.
\<close>

definition finish_record :: "env \<Rightarrow> locals \<Rightarrow> txn \<times> world" where
  "finish_record e l =
     (let (noise, g11) = random_randint (- 5) 10 (l_rnd l);
          score = l_fraud_score l + noise;
          risk = max 0 (min 100 score);
          (fraud, g12) = draw_is_fraud risk g11;
          (tid, f5) = fake (uuid4 e) (l_fkr l)
      in (\<lparr>transaction_id = tid,
           user_id = l_user_id l,
           transaction_timestamp = l_transaction_time l,
           transaction_amount = l_amount l,
           merchant_id = ''merchant_'' @ l_merchant_name l,
           merchant_category = l_merchant_category l,
           payment_method = l_payment_method l,
           ip_address = l_ip_address l,
           geolocation = l_location l,
           device_id = l_device_id l,
           device_type = l_device_type l,
           transaction_type = l_transaction_type l,
           transaction_status = l_transaction_status l,
           is_fraud = fraud,
           risk_score = risk\<rparr>,
          \<lparr>rnd = g12, fkr = f5\<rparr>))"

definition generate_record :: "env \<Rightarrow> string list \<Rightarrow> world \<Rightarrow> py_error + (txn \<times> world)" where
  "generate_record e users w =
     and_then (draw_locals e users w) (\<lambda>l. Inr (finish_record e l))"

text \<open>Line 43: \<open>[fake.uuid4() for _ in range(num_records // 8)]\<close>\<close>

fun make_users :: "env \<Rightarrow> nat \<Rightarrow> rng \<Rightarrow> string list \<times> rng" where
  "make_users e 0 f = ([], f)"
| "make_users e (Suc n) f =
     (let (u, f1) = fake (uuid4 e) f; (us, f2) = make_users e n f1 in (u # us, f2))"

text \<open>Lines 46 and 106: \<open>for _ in range(num_records)\<close>, appending to \<open>data\<close>.\<close>

fun generate_loop :: "env \<Rightarrow> string list \<Rightarrow> nat \<Rightarrow> txn list \<Rightarrow> world \<Rightarrow> py_error + (txn list \<times> world)" where
  "generate_loop e users 0 data w = Inr (data, w)"
| "generate_loop e users (Suc n) data w =
     and_then (generate_record e users w) (\<lambda>(r, w1). generate_loop e users n (data @ [r]) w1)"

text \<open>
  \<open>range(n)\<close> is empty for \<open>n \<le> 0\<close>, which is \<open>nat n = 0\<close>; \<open>//\<close> is floor division,
  as \<open>div\<close> on \<open>int\<close> is.
\<close>

definition generate_fraud_data_chunk :: "env \<Rightarrow> int \<Rightarrow> world \<Rightarrow> py_error + (txn list \<times> world)" where
  "generate_fraud_data_chunk e num_records w =
     (let (users, f1) = make_users e (nat (num_records div 8)) (fkr w)
      in generate_loop e users (nat num_records) [] (w\<lparr>fkr := f1\<rparr>))"

text \<open>The pool of users that a call builds for itself.\<close>

definition user_pool :: "env \<Rightarrow> int \<Rightarrow> world \<Rightarrow> string list" where
  "user_pool e num_records w = fst (make_users e (nat (num_records div 8)) (fkr w))"

text \<open>
  The states of the two generators at the start of each pass of the loop of a call. The
  source has no such list; it names the state that a record was drawn from.
\<close>

fun loop_worlds :: "env \<Rightarrow> string list \<Rightarrow> nat \<Rightarrow> world \<Rightarrow> world list" where
  "loop_worlds e users 0 w = []"
| "loop_worlds e users (Suc n) w =
     w # (case generate_record e users w of
            Inl err \<Rightarrow> []
          | Inr (r, w1) \<Rightarrow> loop_worlds e users n w1)"

definition chunk_worlds :: "env \<Rightarrow> int \<Rightarrow> world \<Rightarrow> world list" where
  "chunk_worlds e num_records w =
     (let (users, f1) = make_users e (nat (num_records div 8)) (fkr w)
      in loop_worlds e users (nat num_records) (w\<lparr>fkr := f1\<rparr>))"

subsection \<open>The chunked writer\<close>

text \<open>
  \<open>range(start, stop, step)\<close>: \<open>ValueError\<close> for a zero step, ascending for a positive
  step and descending for a negative one.
\<close>

function range_up :: "int \<Rightarrow> int \<Rightarrow> int \<Rightarrow> int list" where
  "range_up i stop step = (if 0 < step \<and> i < stop then i # range_up (i + step) stop step else [])"
  by pat_completeness auto
termination
  by (relation "measure (\<lambda>(i, stop, step). nat (stop - i))") auto

function range_down :: "int \<Rightarrow> int \<Rightarrow> int \<Rightarrow> int list" where
  "range_down i stop step = (if step < 0 \<and> stop < i then i # range_down (i + step) stop step else [])"
  by pat_completeness auto
termination
  by (relation "measure (\<lambda>(i, stop, step). nat (i - stop))") auto

declare range_up.simps [simp del] range_down.simps [simp del]

definition py_range :: "int \<Rightarrow> int \<Rightarrow> int \<Rightarrow> py_error + int list" where
  "py_range start stop step =
     (if step = 0 then Inl ValueError
      else if 0 < step then Inr (range_up start stop step)
      else Inr (range_down start stop step))"

text \<open>
  One call of \<open>to_csv(full_path, mode='a', header=first_chunk, index=False)\<close> appends a
  batch to the file: the header row if asked for, then one row per record. A file is the
  list of the batches appended to it (none for a file that does not exist yet), and the
  disk maps a destination, the pair that \<open>Path(output_dir) / filename\<close> joins, to its
  file.
\<close>

record batch =
  header :: bool
  rows :: "txn list"

type_synonym disk = "string \<times> string \<Rightarrow> batch list"

definition to_csv :: "txn list \<Rightarrow> string \<times> string \<Rightarrow> bool \<Rightarrow> disk \<Rightarrow> disk" where
  "to_csv chunk_df full_path hdr d = d(full_path := d full_path @ [\<lparr>header = hdr, rows = chunk_df\<rparr>])"

text \<open>
  Lines 141 to 145. An exception of the synthesizer ends the run: the result is the
  error, if any, and the disk as the batches written so far left it. Line 138 creates
  the directory; failures of the file system are not modelled.
\<close>

fun stream_loop ::
  "env \<Rightarrow> string \<times> string \<Rightarrow> int \<Rightarrow> int \<Rightarrow> int list \<Rightarrow> bool \<Rightarrow> world \<Rightarrow> disk \<Rightarrow> py_error option \<times> disk" where
  "stream_loop e full_path total_records chunk_size [] first_chunk w d = (None, d)"
| "stream_loop e full_path total_records chunk_size (i # is) first_chunk w d =
     (case generate_fraud_data_chunk e (min chunk_size (total_records - i)) w of
        Inl err \<Rightarrow> (Some err, d)
      | Inr (chunk_df, w1) \<Rightarrow>
          stream_loop e full_path total_records chunk_size is False w1
            (to_csv chunk_df full_path first_chunk d))"

definition stream_to_csv ::
  "env \<Rightarrow> string \<Rightarrow> string \<Rightarrow> int \<Rightarrow> int \<Rightarrow> world \<Rightarrow> disk \<Rightarrow> py_error option \<times> disk" where
  "stream_to_csv e filename output_dir total_records chunk_size w d =
     (case py_range 0 total_records chunk_size of
        Inl err \<Rightarrow> (Some err, d)
      | Inr offsets \<Rightarrow>
          stream_loop e (output_dir, filename) total_records chunk_size offsets True w d)"

subsection \<open>A concrete environment\<close>

definition demo_env :: "(string \<Rightarrow> int) \<Rightarrow> env" where
  "demo_env h =
     \<lparr>py_hash = h,
      uuid4 = (\<lambda>k. ''user-'' @ digits k),
      date_time_between = (\<lambda>k. \<lparr>dt_year = 2025, dt_month = 3, dt_day = 14,
                                 dt_hour = 1, dt_minute = 59, dt_second = 26\<rparr>),
      city = (\<lambda>k. ''Springfield''),
      state_abbr = (\<lambda>k. ''IL''),
      ipv4_private = (\<lambda>k. ''10.0.0.'' @ digits (k mod 256)),
      ipv4_public = (\<lambda>k. ''8.8.8.'' @ digits (k mod 256))\<rparr>"

definition demo_world :: world where
  "demo_world = \<lparr>rnd = (\<lambda>i. 0), fkr = (\<lambda>i. i)\<rparr>"

text \<open>
  A state of the generators under which every draw of \<open>random\<close> is the same raw value,
  fifteen sixteenths of the range and a little more, and an environment whose public
  addresses lie in the public part of the \<open>192\<close> block.
\<close>

definition high_risk_world :: world where
  "high_risk_world = \<lparr>rnd = (\<lambda>i. 8444249301319688), fkr = (\<lambda>i. i)\<rparr>"

definition edge_env :: env where
  "edge_env = (demo_env (\<lambda>s. 0))\<lparr>ipv4_public := (\<lambda>k. ''192.5.5.'' @ digits (k mod 256))\<rparr>"

section \<open>Properties\<close>

subsection \<open>Rounding\<close>

lemma round_half_even_le: "y \<le> of_int n \<Longrightarrow> round_half_even y \<le> n"
proof -
  assume yn: "y \<le> of_int n"
  then have fl: "\<lfloor>y\<rfloor> \<le> n" by (simp add: floor_le_iff)
  show ?thesis
  proof (cases "\<lfloor>y\<rfloor> = n")
    case True
    then have "y - of_int \<lfloor>y\<rfloor> \<le> 0" using yn by simp
    then show ?thesis using True by (simp add: round_half_even_def Let_def)
  next
    case False
    with fl have "\<lfloor>y\<rfloor> + 1 \<le> n" by simp
    then show ?thesis using fl by (simp add: round_half_even_def Let_def)
  qed
qed

lemma round_half_even_nonneg: "0 \<le> y \<Longrightarrow> 0 \<le> round_half_even y"
  by (simp add: round_half_even_def Let_def)

lemma ulp_pos: "0 < ulp e"
  by (simp add: ulp_def)

lemma binade_le_52:
  assumes "0 < x" "x < 2 ^ 53"
  shows "binade x \<le> 52"
proof (cases "1 \<le> x")
  case True
  then have pos: "0 < \<lfloor>x\<rfloor>" by simp
  have A: "\<lfloor>x\<rfloor> < 2 ^ 53" using assms(2) by (simp add: floor_less_iff)
  from bitlen_bounds [OF pos] have B: "2 ^ nat (bitlen \<lfloor>x\<rfloor> - 1) \<le> \<lfloor>x\<rfloor>" by simp
  from B A have "(2::int) ^ nat (bitlen \<lfloor>x\<rfloor> - 1) < 2 ^ 53" by (rule le_less_trans)
  then have "nat (bitlen \<lfloor>x\<rfloor> - 1) < 53"
    by (rule power_less_imp_less_exp [rotated]) simp
  then show ?thesis using True by (simp add: binade_def)
next
  case False
  have "0 \<le> bitlen (\<lceil>1 / x\<rceil> - 1)" by (rule bitlen_nonneg)
  then show ?thesis using False by (simp add: binade_def)
qed

lemma fl_nonneg: "0 \<le> x \<Longrightarrow> 0 \<le> fl x"
proof (cases "x = 0")
  case True
  then show ?thesis by (simp add: fl_def)
next
  case False
  assume "0 \<le> x"
  with False have x: "0 < x" by simp
  have "0 \<le> x / ulp (binade x)" using x ulp_pos [of "binade x"] by simp
  then have "0 \<le> round_half_even (x / ulp (binade x))" by (rule round_half_even_nonneg)
  then have "0 \<le> (of_int (round_half_even (x / ulp (binade x))) :: rat) * ulp (binade x)"
    using ulp_pos [of "binade x"] by simp
  then show ?thesis using x by (simp add: fl_def)
qed

lemma fl_le_int:
  assumes "0 \<le> x" "x \<le> of_int n" "n < 2 ^ 53"
  shows "fl x \<le> of_int n"
proof (cases "x = 0")
  case True
  then show ?thesis using assms by (simp add: fl_def)
next
  case False
  with assms have x: "0 < x" by simp
  have "x < 2 ^ 53"
  proof -
    have "(of_int n :: rat) < of_int (2 ^ 53)" using assms(3) of_int_less_iff by blast
    then show ?thesis using assms(2) by simp
  qed
  from binade_le_52 [OF x this] have e: "binade x \<le> 52" .
  define k where "k = nat (52 - binade x)"
  have u: "ulp (binade x) = 1 / 2 ^ k"
  proof (cases "binade x = 52")
    case True
    then show ?thesis by (simp add: ulp_def k_def)
  next
    case False
    with e show ?thesis by (simp add: ulp_def k_def)
  qed
  have "x / ulp (binade x) = x * 2 ^ k" by (simp add: u)
  also have "\<dots> \<le> of_int n * 2 ^ k" using assms(2) by simp
  also have "\<dots> = of_int (n * 2 ^ k)" by simp
  finally have "round_half_even (x / ulp (binade x)) \<le> n * 2 ^ k" by (rule round_half_even_le)
  then have "(of_int (round_half_even (x / ulp (binade x))) :: rat) \<le> of_int (n * 2 ^ k)"
    using of_int_le_iff by blast
  then have "(of_int (round_half_even (x / ulp (binade x))) :: rat) * (1 / 2 ^ k) \<le> of_int n"
    by (simp add: field_simps)
  then show ?thesis using x by (simp add: fl_def u)
qed

text \<open>The three float literals of the source.\<close>

lemma fl_3_10: "fl (3 / 10) = 5404319552844595 / 2 ^ 54"
  by code_simp

lemma fl_7_10: "fl (7 / 10) = 3152519739159347 / 2 ^ 52"
  by code_simp

lemma fl_1_20: "fl (1 / 20) = 3602879701896397 / 2 ^ 56"
  by code_simp

subsection \<open>The library calls stay within their ranges\<close>

lemma random_random_range: "0 \<le> fst (random_random g) \<and> fst (random_random g) < 1"
proof -
  have "g 0 mod 2 ^ 53 < (2::nat) ^ 53" by simp
  then have "(of_nat (g 0 mod 2 ^ 53) :: rat) < of_nat (2 ^ 53)"
    using of_nat_less_iff by blast
  then show ?thesis
    by (simp add: random_random_def next_raw_def)
qed

lemma random_randint_range:
  "a \<le> b \<Longrightarrow> a \<le> fst (random_randint a b g) \<and> fst (random_randint a b g) \<le> b"
proof -
  assume ab: "a \<le> b"
  then have "0 < nat (b - a + 1)" by simp
  then have "g 0 mod nat (b - a + 1) < nat (b - a + 1)" by simp
  then have "int (g 0 mod nat (b - a + 1)) < b - a + 1" using ab by linarith
  then show ?thesis
    by (simp add: random_randint_def next_raw_def)
qed

lemma random_uniform_le:
  assumes "0 \<le> a" "a \<le> b" "b < 2 ^ 53"
  shows "fst (random_uniform a b g) \<le> of_int b"
proof -
  obtain u g' where ug: "random_random g = (u, g')" by (cases "random_random g")
  with random_random_range [of g] have u: "0 \<le> u" "u < 1" by simp_all
  let ?p = "of_int (b - a) * u"
  have p0: "0 \<le> ?p" using assms u by simp
  have "?p \<le> of_int (b - a) * 1"
    using assms u by (intro mult_left_mono) simp_all
  then have p1: "?p \<le> of_int (b - a)" by simp
  have "b - a < 2 ^ 53" using assms by simp
  from fl_le_int [OF p0 p1 this] have f1: "fl ?p \<le> of_int (b - a)" .
  from fl_nonneg [OF p0] have f0: "0 \<le> fl ?p" .
  have s0: "0 \<le> of_int a + fl ?p" using assms(1) f0 by simp
  have s1: "of_int a + fl ?p \<le> of_int b" using f1 by simp
  from fl_le_int [OF s0 s1 assms(3)] show ?thesis by (simp add: random_uniform_def ug)
qed

lemma round2_le: "x \<le> of_int n \<Longrightarrow> round2 x \<le> of_int n"
proof -
  assume "x \<le> of_int n"
  then have "x * 100 \<le> of_int (n * 100)" by simp
  then have "round_half_even (x * 100) \<le> n * 100" by (rule round_half_even_le)
  then have "(of_int (round_half_even (x * 100)) :: rat) \<le> of_int (n * 100)"
    using of_int_le_iff by blast
  then show ?thesis by (simp add: round2_def)
qed

lemma amount_ranges_bounds:
  "0 \<le> fst (amount_ranges c) \<and> fst (amount_ranges c) \<le> snd (amount_ranges c) \<and>
   snd (amount_ranges c) \<le> 1000 \<and> fst (amount_ranges c) \<le> 300"
  by (simp add: amount_ranges_def)

lemma draw_amount_le: "fst (draw_amount c g) \<le> 1000"
proof -
  obtain lo hi where r: "amount_ranges c = (lo, hi)" by (cases "amount_ranges c")
  with amount_ranges_bounds [of c] have b: "0 \<le> lo" "lo \<le> hi" "hi \<le> 1000" "lo \<le> 300"
    by simp_all
  have hi53: "hi < 2 ^ 53" using b(3) by simp
  obtain x g1 where x: "random_uniform lo hi g = (x, g1)" by (cases "random_uniform lo hi g")
  with random_uniform_le [OF b(1) b(2) hi53, of g] have "x \<le> of_int hi" by simp
  also have "\<dots> \<le> of_int 1000" using b(3) by simp
  finally have r1: "round2 x \<le> of_int 1000" by (rule round2_le)
  obtain u g2 where u: "random_random g1 = (u, g2)" by (cases "random_random g1")
  obtain y g3 where y: "random_uniform lo 300 g2 = (y, g3)" by (cases "random_uniform lo 300 g2")
  with random_uniform_le [OF b(1) b(4), of g2] have "y \<le> of_int 1000" by simp
  then have r2: "round2 y \<le> of_int 1000" by (rule round2_le)
  show ?thesis using r1 r2 by (simp add: draw_amount_def r x u y Let_def)
qed

lemma draw_hour_range: "0 \<le> fst (draw_hour g) \<and> fst (draw_hour g) \<le> 23"
proof -
  obtain u g1 where u: "random_random g = (u, g1)" by (cases "random_random g")
  have a: "8 \<le> fst (random_randint 8 22 g1) \<and> fst (random_randint 8 22 g1) \<le> 22"
    by (rule random_randint_range) simp
  have b: "0 \<le> fst (random_randint 0 23 g1) \<and> fst (random_randint 0 23 g1) \<le> 23"
    by (rule random_randint_range) simp
  show ?thesis using a b by (simp add: draw_hour_def u)
qed

lemma below_0_3:
  "fst (random_random g) < fl (3 / 10) \<longleftrightarrow> fst (random_random g) < 3 / 10"
proof -
  define m where "m = g 0 mod 2 ^ 53"
  have u: "fst (random_random g) = of_nat m / 2 ^ 53"
    by (simp add: random_random_def next_raw_def m_def)
  have "(of_nat m / 2 ^ 53 < (5404319552844595 / 2 ^ 54 :: rat)) \<longleftrightarrow> (of_nat (2 * m) < (of_nat 5404319552844595 :: rat))"
    by (simp add: field_simps)
  also have "\<dots> \<longleftrightarrow> 2 * m < 5404319552844595" by (simp only: of_nat_less_iff)
  also have "\<dots> \<longleftrightarrow> 10 * m < 27021597764222976" by presburger
  also have "\<dots> \<longleftrightarrow> (of_nat (10 * m) < (of_nat 27021597764222976 :: rat))" by (simp only: of_nat_less_iff)
  also have "\<dots> \<longleftrightarrow> (of_nat m / 2 ^ 53 < (3 / 10 :: rat))" by (simp add: field_simps)
  finally show ?thesis by (simp only: u fl_3_10)
qed

subsection \<open>One record\<close>

lemma random_choice_Inr: "random_choice xs g = Inr (x, g') \<Longrightarrow> x \<in> set xs"
  by (auto simp: random_choice_def next_raw_def split: if_splits)

lemma replace_hour_Inr: "replace_hour dt h = Inr tt \<Longrightarrow> dt_hour tt = h"
  by (auto simp: replace_hour_def split: if_splits)

lemma draw_amount_eq_le: "draw_amount c g = (a, g') \<Longrightarrow> a \<le> 1000"
  using draw_amount_le [of c g] by simp

lemma noise_range:
  "- 5 \<le> fst (random_randint (- 5) 10 g) \<and> fst (random_randint (- 5) 10 g) \<le> 10"
  by (rule random_randint_range) simp

lemma draw_hour_eq_range: "draw_hour g = (h, g') \<Longrightarrow> 0 \<le> h \<and> h \<le> 23"
  using draw_hour_range [of g] by simp

lemma draw_is_fraud_gate:
  "fst (draw_is_fraud s g) = (70 < s \<and> fst (random_random g) < 3 / 10)"
  using below_0_3 [of g] by (simp add: draw_is_fraud_def split_beta)

lemma draw_locals_facts:
  assumes "draw_locals e users w = Inr l"
  shows "l_user_id l \<in> set users
    \<and> l_amount l \<le> 1000
    \<and> l_device_id l = ''device_'' @ format_04d (py_hash e (l_user_id l) mod 10000)
    \<and> dt_hour (l_transaction_time l) = l_hour l
    \<and> l_is_private_ip l = is_private_ip (l_ip_address l)
    \<and> l_fraud_score l = fraud_score (l_amount l) (l_hour l) (l_merchant_category l)
         (l_payment_method l) (l_transaction_status l) (l_is_private_ip l)"
  using assms unfolding draw_locals_def and_then_def Let_def
  by (auto split: sum.splits prod.splits
      dest: random_choice_Inr draw_amount_eq_le
      dest!: replace_hour_Inr)

lemma finish_record_fields:
  "transaction_id (fst (finish_record e l)) = fst (fake (uuid4 e) (l_fkr l))"
  "user_id (fst (finish_record e l)) = l_user_id l"
  "transaction_timestamp (fst (finish_record e l)) = l_transaction_time l"
  "transaction_amount (fst (finish_record e l)) = l_amount l"
  "merchant_id (fst (finish_record e l)) = ''merchant_'' @ l_merchant_name l"
  "merchant_category (fst (finish_record e l)) = l_merchant_category l"
  "payment_method (fst (finish_record e l)) = l_payment_method l"
  "ip_address (fst (finish_record e l)) = l_ip_address l"
  "geolocation (fst (finish_record e l)) = l_location l"
  "device_id (fst (finish_record e l)) = l_device_id l"
  "device_type (fst (finish_record e l)) = l_device_type l"
  "transaction_type (fst (finish_record e l)) = l_transaction_type l"
  "transaction_status (fst (finish_record e l)) = l_transaction_status l"
  by (simp_all add: finish_record_def split_beta Let_def)

lemma finish_record_risk:
  "risk_score (fst (finish_record e l)) =
     max 0 (min 100 (l_fraud_score l + fst (random_randint (- 5) 10 (l_rnd l))))"
  by (simp add: finish_record_def split_beta Let_def)

lemma finish_record_flag:
  "is_fraud (fst (finish_record e l)) =
     fst (draw_is_fraud (risk_score (fst (finish_record e l)))
            (snd (random_randint (- 5) 10 (l_rnd l))))"
  by (simp add: finish_record_def split_beta Let_def)

lemma generate_record_Inr:
  "generate_record e users w = Inr (r, w') \<longleftrightarrow>
     (\<exists>l. draw_locals e users w = Inr l \<and> finish_record e l = (r, w'))"
  by (auto simp: generate_record_def and_then_def split: sum.splits)

lemma generate_record_facts:
  assumes "generate_record e users w = Inr (r, w')"
  shows "user_id r \<in> set users
    \<and> transaction_amount r \<le> 1000
    \<and> (is_fraud r \<longrightarrow> 70 < risk_score r)
    \<and> device_id r = ''device_'' @ format_04d (py_hash e (user_id r) mod 10000)
    \<and> (\<exists>noise. - 5 \<le> noise \<and> noise \<le> 10 \<and>
          risk_score r = max 0 (min 100 (fraud_score (transaction_amount r)
             (dt_hour (transaction_timestamp r)) (merchant_category r) (payment_method r)
             (transaction_status r) (is_private_ip (ip_address r)) + noise)))"
proof -
  from assms obtain l where l: "draw_locals e users w = Inr l" and f: "finish_record e l = (r, w')"
    unfolding generate_record_Inr by blast
  from f have r: "r = fst (finish_record e l)" by simp
  note d = draw_locals_facts [OF l]
  have "user_id r \<in> set users" using d by (simp add: r finish_record_fields)
  moreover have "transaction_amount r \<le> 1000" using d by (simp add: r finish_record_fields)
  moreover have "is_fraud r \<longrightarrow> 70 < risk_score r"
    unfolding r finish_record_flag draw_is_fraud_gate by simp
  moreover have "device_id r = ''device_'' @ format_04d (py_hash e (user_id r) mod 10000)"
    using d by (simp add: r finish_record_fields)
  moreover have "\<exists>noise. - 5 \<le> noise \<and> noise \<le> 10 \<and>
          risk_score r = max 0 (min 100 (fraud_score (transaction_amount r)
             (dt_hour (transaction_timestamp r)) (merchant_category r) (payment_method r)
             (transaction_status r) (is_private_ip (ip_address r)) + noise))"
  proof -
    have "risk_score r = max 0 (min 100 (fraud_score (transaction_amount r)
             (dt_hour (transaction_timestamp r)) (merchant_category r) (payment_method r)
             (transaction_status r) (is_private_ip (ip_address r))
             + fst (random_randint (- 5) 10 (l_rnd l))))"
      using d by (simp add: r finish_record_fields finish_record_risk)
    with noise_range [of "l_rnd l"] show ?thesis by blast
  qed
  ultimately show ?thesis by (intro conjI)
qed

lemma draw_locals_empty: "draw_locals e [] w = Inl IndexError"
  by (simp add: draw_locals_def and_then_def random_choice_def)

lemma generate_record_empty: "generate_record e [] w = Inl IndexError"
  by (simp add: generate_record_def draw_locals_empty and_then_def)

lemma draw_locals_ok:
  assumes "users \<noteq> []"
  shows "\<exists>l. draw_locals e users w = Inr l"
  using assms unfolding draw_locals_def and_then_def Let_def
  by (auto split: sum.splits prod.splits
      simp: random_choice_def MERCHANTS_def COUNTRIES_def replace_hour_def
      dest!: draw_hour_eq_range)

lemma generate_record_ok:
  assumes "users \<noteq> []"
  shows "\<exists>r w'. generate_record e users w = Inr (r, w')"
proof -
  from draw_locals_ok [OF assms, of e w] obtain l where "draw_locals e users w = Inr l" by blast
  then show ?thesis by (simp add: generate_record_def and_then_def split_beta)
qed

lemma generate_loop_empty: "generate_loop e [] (Suc n) data w = Inl IndexError"
  by (simp add: generate_record_empty and_then_def)

lemma generate_loop_ok:
  "users \<noteq> [] \<Longrightarrow> \<exists>rs w'. generate_loop e users n data w = Inr (rs, w')"
proof (induction n arbitrary: data w)
  case 0
  then show ?case by simp
next
  case (Suc n)
  from generate_record_ok [OF Suc.prems, of e w]
  obtain r w1 where r: "generate_record e users w = Inr (r, w1)" by blast
  from Suc.IH [OF Suc.prems, of "data @ [r]" w1]
  show ?case by (simp add: r and_then_def)
qed

lemma generate_loop_Inr:
  "generate_loop e users n data w = Inr (rs, w') \<Longrightarrow>
   \<exists>new. rs = data @ new \<and> length new = n \<and> length (loop_worlds e users n w) = n \<and>
     (\<forall>k < n. \<exists>w2. generate_record e users (loop_worlds e users n w ! k) = Inr (new ! k, w2))"
proof (induction n arbitrary: data w)
  case 0
  then show ?case by simp
next
  case (Suc n)
  from Suc.prems obtain r w1 where r: "generate_record e users w = Inr (r, w1)"
    and rest: "generate_loop e users n (data @ [r]) w1 = Inr (rs, w')"
    by (auto simp: and_then_def split: sum.splits)
  from Suc.IH [OF rest] obtain new where new: "rs = (data @ [r]) @ new" "length new = n"
    "length (loop_worlds e users n w1) = n"
    "\<forall>k < n. \<exists>w2. generate_record e users (loop_worlds e users n w1 ! k) = Inr (new ! k, w2)"
    by blast
  have lw: "loop_worlds e users (Suc n) w = w # loop_worlds e users n w1" by (simp add: r)
  have "rs = data @ (r # new)" using new(1) by simp
  moreover have "length (r # new) = Suc n" using new(2) by simp
  moreover have "length (loop_worlds e users (Suc n) w) = Suc n" using new(3) lw by simp
  moreover have "\<forall>k < Suc n. \<exists>w2. generate_record e users (loop_worlds e users (Suc n) w ! k)
       = Inr ((r # new) ! k, w2)"
  proof (intro allI impI)
    fix k assume k: "k < Suc n"
    show "\<exists>w2. generate_record e users (loop_worlds e users (Suc n) w ! k) = Inr ((r # new) ! k, w2)"
    proof (cases k)
      case 0
      then show ?thesis using r lw by simp
    next
      case (Suc j)
      with k have "j < n" by simp
      with new(4) show ?thesis using lw Suc by simp
    qed
  qed
  ultimately show ?case by blast
qed

lemma make_users_length: "length (fst (make_users e n f)) = n"
  by (induction n arbitrary: f) (simp_all add: split_beta Let_def)

lemma chunk_Inr:
  assumes "generate_fraud_data_chunk e n w = Inr (rs, w')"
  shows "length rs = nat n \<and>
    (\<forall>k < length rs. \<exists>w2. generate_record e (user_pool e n w) (chunk_worlds e n w ! k)
        = Inr (rs ! k, w2))"
proof -
  obtain users f1 where u: "make_users e (nat (n div 8)) (fkr w) = (users, f1)"
    by (cases "make_users e (nat (n div 8)) (fkr w)")
  then have p: "user_pool e n w = users" by (simp add: user_pool_def)
  have cw: "chunk_worlds e n w = loop_worlds e users (nat n) (w\<lparr>fkr := f1\<rparr>)"
    by (simp add: chunk_worlds_def u)
  from assms u have "generate_loop e users (nat n) [] (w\<lparr>fkr := f1\<rparr>) = Inr (rs, w')"
    by (simp add: generate_fraud_data_chunk_def)
  from generate_loop_Inr [OF this] show ?thesis by (simp add: p cw)
qed

lemma chunk_record:
  assumes "generate_fraud_data_chunk e n w = Inr (rs, w')" and "r \<in> set rs"
  obtains w1 w2 where "generate_record e (user_pool e n w) w1 = Inr (r, w2)"
proof -
  from assms(2) obtain k where k: "k < length rs" "rs ! k = r" by (auto simp: in_set_conv_nth)
  with chunk_Inr [OF assms(1)] that show ?thesis by blast
qed

lemma chunk_ok:
  assumes "8 \<le> n"
  shows "\<exists>rs w'. generate_fraud_data_chunk e n w = Inr (rs, w')"
proof -
  obtain users f1 where u: "make_users e (nat (n div 8)) (fkr w) = (users, f1)"
    by (cases "make_users e (nat (n div 8)) (fkr w)")
  from assms have "0 < nat (n div 8)" by simp
  with make_users_length [of e "nat (n div 8)" "fkr w"] u have "users \<noteq> []" by auto
  from generate_loop_ok [OF this, of e "nat n" "[]" "w\<lparr>fkr := f1\<rparr>"]
  show ?thesis by (simp add: generate_fraud_data_chunk_def u)
qed

lemma chunk_small:
  assumes "1 \<le> n" "n \<le> 7"
  shows "generate_fraud_data_chunk e n w = Inl IndexError"
proof -
  from assms have d: "n div 8 = 0" by simp
  from assms obtain k where k: "nat n = Suc k" by (cases "nat n") simp_all
  show ?thesis by (simp add: generate_fraud_data_chunk_def d k generate_loop_empty del: generate_loop.simps)
qed

lemma chunk_nonpos:
  assumes "n \<le> 0"
  shows "generate_fraud_data_chunk e n w = Inr ([], w)"
proof -
  from assms have "n div 8 \<le> 0" by simp
  then have "nat (n div 8) = 0" by simp
  then show ?thesis using assms by (simp add: generate_fraud_data_chunk_def)
qed

lemma fraud_score_sum:
  "fraud_score amount hour category method status private =
     (if 500 < amount then 30 else 0) + (if 1000 < amount then 20 else 0)
   + (if hour < 6 \<or> 23 < hour then 15 else 0) + (if category = ''online'' then 10 else 0)
   + (if method = ''digital_wallet'' then 5 else 0) + (if status = ''failed'' then 25 else 0)
   + (if private then 20 else 0)"
  by (simp add: fraud_score_def Let_def)

lemma user_pool_length: "length (user_pool e n w) = nat (n div 8)"
  by (simp add: user_pool_def make_users_length)

subsection \<open>Runs of the writer\<close>

lemma stream_loop_None:
  "stream_loop e p tot chunk offs first w d = (None, d') \<Longrightarrow>
   \<exists>bs. d' = d(p := d p @ bs) \<and> length bs = length offs \<and>
     (\<forall>k < length offs. header (bs ! k) = (first \<and> k = 0) \<and>
        length (rows (bs ! k)) = nat (min chunk (tot - offs ! k)))"
proof (induction offs arbitrary: first w d)
  case Nil
  then have b: "d' = d" by simp
  have a: "d(p := d p @ []) = d" by simp
  show ?case by (rule exI [of _ "[]"]) (simp only: a b, simp)
next
  case (Cons i offs)
  from Cons.prems obtain rs w1 where
    g: "generate_fraud_data_chunk e (min chunk (tot - i)) w = Inr (rs, w1)"
    and rest: "stream_loop e p tot chunk offs False w1 (to_csv rs p first d) = (None, d')"
    by (auto split: sum.splits)
  from chunk_Inr [OF g] have len: "length rs = nat (min chunk (tot - i))" by simp
  from Cons.IH [OF rest] obtain bs where bs:
    "d' = (to_csv rs p first d)(p := (to_csv rs p first d) p @ bs)"
    "length bs = length offs"
    "\<forall>k < length offs. header (bs ! k) = (False \<and> k = 0) \<and>
        length (rows (bs ! k)) = nat (min chunk (tot - offs ! k))"
    by blast
  let ?b = "\<lparr>header = first, rows = rs\<rparr>"
  have "d' = d(p := d p @ (?b # bs))" using bs(1) by (simp add: to_csv_def)
  moreover have "length (?b # bs) = length (i # offs)" using bs(2) by simp
  moreover have "\<forall>k < length (i # offs). header ((?b # bs) ! k) = (first \<and> k = 0) \<and>
        length (rows ((?b # bs) ! k)) = nat (min chunk (tot - (i # offs) ! k))"
  proof (intro allI impI)
    fix k assume k: "k < length (i # offs)"
    show "header ((?b # bs) ! k) = (first \<and> k = 0) \<and>
        length (rows ((?b # bs) ! k)) = nat (min chunk (tot - (i # offs) ! k))"
    proof (cases k)
      case 0
      then show ?thesis by (simp add: len)
    next
      case (Suc j)
      with k have "j < length offs" by simp
      with bs(3) show ?thesis by (simp add: Suc)
    qed
  qed
  ultimately show ?case by blast
qed

lemma stream_loop_ok:
  "(\<And>i. i \<in> set offs \<Longrightarrow> 8 \<le> min chunk (tot - i)) \<Longrightarrow>
   \<exists>d'. stream_loop e p tot chunk offs first w d = (None, d')"
proof (induction offs arbitrary: first w d)
  case Nil
  then show ?case by simp
next
  case (Cons i offs)
  have "8 \<le> min chunk (tot - i)" using Cons.prems [of i] by simp
  from chunk_ok [OF this, of e w] obtain rs w1 where
    g: "generate_fraud_data_chunk e (min chunk (tot - i)) w = Inr (rs, w1)" by blast
  have "\<exists>d'. stream_loop e p tot chunk offs False w1 (to_csv rs p first d) = (None, d')"
    by (rule Cons.IH) (rule Cons.prems, simp)
  then show ?case by (simp add: g)
qed

lemma range_up_single: "0 < tot \<Longrightarrow> tot \<le> chunk \<Longrightarrow> range_up 0 tot chunk = [0]"
proof -
  assume a: "0 < tot" "tot \<le> chunk"
  then have "range_up 0 tot chunk = 0 # range_up (0 + chunk) tot chunk"
    by (subst range_up.simps) simp
  moreover have "range_up (0 + chunk) tot chunk = []"
    using a by (subst range_up.simps) simp
  ultimately show ?thesis by simp
qed

lemma stream_single_batch:
  assumes "8 \<le> tot" "tot \<le> chunk"
  shows "\<exists>rs w1. generate_fraud_data_chunk e tot w = Inr (rs, w1) \<and> length rs = nat tot \<and>
     stream_to_csv e f dir tot chunk w d = (None, to_csv rs (dir, f) True d)"
proof -
  from chunk_ok [OF assms(1), of e w] obtain rs w1 where
    g: "generate_fraud_data_chunk e tot w = Inr (rs, w1)" by blast
  from chunk_Inr [OF g] have len: "length rs = nat tot" by simp
  have r: "range_up 0 tot chunk = [0]" using assms by (intro range_up_single) simp_all
  have m: "min chunk tot = tot" using assms by simp
  have "stream_to_csv e f dir tot chunk w d = (None, to_csv rs (dir, f) True d)"
    using assms by (simp add: stream_to_csv_def py_range_def r m g)
  with g len show ?thesis by blast
qed

lemma range_up_120000: "range_up 0 120000 50000 = [0, 50000, 100000]"
  by (simp add: range_up.simps)

lemma stream_three_batches:
  "\<exists>b1 b2 b3. stream_to_csv e f dir 120000 50000 w d = (None, d((dir, f) := d (dir, f) @ [b1, b2, b3]))
     \<and> header b1 \<and> \<not> header b2 \<and> \<not> header b3
     \<and> length (rows b1) = 50000 \<and> length (rows b2) = 50000 \<and> length (rows b3) = 20000"
proof -
  have ok: "\<And>i. i \<in> set [0, 50000, 100000] \<Longrightarrow> (8::int) \<le> min 50000 (120000 - i)" by auto
  from stream_loop_ok [of "[0, 50000, 100000]" 50000 120000 e "(dir, f)" True w d, OF ok]
  obtain d' where l: "stream_loop e (dir, f) 120000 50000 [0, 50000, 100000] True w d = (None, d')"
    by blast
  from stream_loop_None [OF l] obtain bs where bs:
    "d' = d((dir, f) := d (dir, f) @ bs)" "length bs = 3"
    "\<forall>k < 3. header (bs ! k) = (True \<and> k = 0) \<and>
        length (rows (bs ! k)) = nat (min 50000 (120000 - [0, 50000, 100000] ! k))" by auto
  from bs(2) obtain b1 b2 b3 where b: "bs = [b1, b2, b3]"
    by (auto simp: length_Suc_conv numeral_3_eq_3)
  from bs(3) have "header (bs ! 0) \<and> length (rows (bs ! 0)) = 50000"
    "\<not> header (bs ! 1) \<and> length (rows (bs ! 1)) = 50000"
    "\<not> header (bs ! 2) \<and> length (rows (bs ! 2)) = 20000"
    by (simp_all add: numeral_3_eq_3)
  then have h: "header b1" "\<not> header b2" "\<not> header b3"
    "length (rows b1) = 50000" "length (rows b2) = 50000" "length (rows b3) = 20000"
    by (simp_all add: b)
  have "stream_to_csv e f dir 120000 50000 w d = (None, d((dir, f) := d (dir, f) @ [b1, b2, b3]))"
    using l bs(1) b by (simp add: stream_to_csv_def py_range_def range_up_120000)
  with h show ?thesis by blast
qed

lemma format_04d_0: "format_04d 0 = ''0000''"
  by (simp add: format_04d_def digits.simps numeral_3_eq_3)

lemma format_04d_1: "format_04d 1 = ''0001''"
  by (simp add: format_04d_def digits.simps numeral_3_eq_3)

lemma run_device_ids:
  "\<exists>rs. stream_to_csv (demo_env (\<lambda>s. c)) f dir 8 8 w d =
          (None, d((dir, f) := d (dir, f) @ [\<lparr>header = True, rows = rs\<rparr>])) \<and>
        rs \<noteq> [] \<and>
        (\<forall>r \<in> set rs. device_id r = ''device_'' @ format_04d (c mod 10000))"
proof -
  from stream_single_batch [of 8 8 "demo_env (\<lambda>s. c)" w f dir d] obtain rs w1 where
    g: "generate_fraud_data_chunk (demo_env (\<lambda>s. c)) 8 w = Inr (rs, w1)"
    and len: "length rs = 8"
    and s: "stream_to_csv (demo_env (\<lambda>s. c)) f dir 8 8 w d = (None, to_csv rs (dir, f) True d)"
    by auto
  have "\<forall>r \<in> set rs. device_id r = ''device_'' @ format_04d (c mod 10000)"
  proof
    fix r assume "r \<in> set rs"
    with g obtain w2 w3 where
      "generate_record (demo_env (\<lambda>s. c)) (user_pool (demo_env (\<lambda>s. c)) 8 w) w2 = Inr (r, w3)"
      by (rule chunk_record)
    from generate_record_facts [OF this]
    show "device_id r = ''device_'' @ format_04d (c mod 10000)" by (simp add: demo_env_def)
  qed
  moreover from len have "rs \<noteq> []" by auto
  ultimately show ?thesis using s by (auto simp: to_csv_def)
qed

lemma prefix_sep_iff:
  assumes "c \<notin> set g"
  shows "prefix (g @ [c]) s \<longleftrightarrow> c \<in> set s \<and> takeWhile (\<lambda>x. x \<noteq> c) s = g"
proof
  assume "prefix (g @ [c]) s"
  then obtain rest where s: "s = g @ c # rest" by (auto simp: prefix_def)
  have "takeWhile (\<lambda>x. x \<noteq> c) (g @ c # rest) = g"
    using assms by (subst takeWhile_append2) auto
  with s show "c \<in> set s \<and> takeWhile (\<lambda>x. x \<noteq> c) s = g" by simp
next
  assume a: "c \<in> set s \<and> takeWhile (\<lambda>x. x \<noteq> c) s = g"
  then have "dropWhile (\<lambda>x. x \<noteq> c) s \<noteq> []" by auto
  then obtain y ys where d: "dropWhile (\<lambda>x. x \<noteq> c) s = y # ys"
    by (cases "dropWhile (\<lambda>x. x \<noteq> c) s") simp_all
  from hd_dropWhile [of "\<lambda>x. x \<noteq> c" s] d have "y = c" by simp
  have "s = takeWhile (\<lambda>x. x \<noteq> c) s @ dropWhile (\<lambda>x. x \<noteq> c) s" by simp
  with a d \<open>y = c\<close> have "s = (g @ [c]) @ ys" by simp
  then show "prefix (g @ [c]) s" unfolding prefix_def by blast
qed

lemma range_up_13_8: "range_up 0 13 8 = [0, 8]"
  by (simp add: range_up.simps)

lemma stream_small_total:
  "stream_to_csv e f dir 5 10 w d = (Some IndexError, d)"
proof -
  have r: "range_up 0 5 10 = [0]" by (rule range_up_single) simp_all
  have g: "generate_fraud_data_chunk e 5 w = Inl IndexError" by (rule chunk_small) simp_all
  show ?thesis by (simp add: stream_to_csv_def py_range_def r g)
qed

lemma stream_short_last_batch:
  "\<exists>rs. stream_to_csv e f dir 13 8 w d = (Some IndexError, to_csv rs (dir, f) True d) \<and>
     length rs = 8"
proof -
  from chunk_ok [of 8 e w] obtain rs w1 where
    g: "generate_fraud_data_chunk e 8 w = Inr (rs, w1)" by auto
  from chunk_Inr [OF g] have len: "length rs = 8" by simp
  have g2: "generate_fraud_data_chunk e 5 w1 = Inl IndexError" by (rule chunk_small) simp_all
  have "stream_to_csv e f dir 13 8 w d = (Some IndexError, to_csv rs (dir, f) True d)"
    by (simp add: stream_to_csv_def py_range_def range_up_13_8 g g2)
  with len show ?thesis by blast
qed

subsection \<open>One record, evaluated\<close>

text \<open>
  A constant stream is left as it was by every draw. Under \<open>high_risk_world\<close> every
  call of the \<open>random\<close> module is decided: the merchant is paypal, the amount 940.63,
  the payment a digital wallet, the status failed, the noise 3.
\<close>

lemma const_next: "next_raw (\<lambda>i. c) = (c, \<lambda>i. c)"
  by (simp add: next_raw_def)

lemma const_choice: "xs \<noteq> [] \<Longrightarrow> random_choice xs (\<lambda>i. c) = Inr (xs ! (c mod length xs), \<lambda>i. c)"
  by (simp add: random_choice_def const_next)

lemma hr_random: "random_random (\<lambda>i. 8444249301319688) = (1055531162664961 / 1125899906842624, (\<lambda>i. 8444249301319688))"
  by (simp add: random_random_def next_raw_def)

lemma hr_hour: "draw_hour (\<lambda>i. 8444249301319688) = (8, (\<lambda>i. 8444249301319688))"
  by (simp add: draw_hour_def hr_random random_randint_def next_raw_def fl_7_10)

lemma fl_hr_scaled: "fl (26388279066624025 / 281474976710656) = 3298534883328003 / 35184372088832"
  by code_simp

lemma fl_hr_product: "fl (501377302265856475 / 562949953421312) = 7834020347904007 / 8796093022208"
  by code_simp

lemma fl_hr_sum: "fl (8273824999014407 / 8796093022208) = 8273824999014407 / 8796093022208"
  by code_simp

lemma round2_hr: "round2 (8273824999014407 / 8796093022208) = 94063 / 100"
  by code_simp

lemma hr_method:
  "random_choices [''credit_card'', ''debit_card'', ''digital_wallet'', ''bank_transfer'']
     [45, 35, 15, 5] (\<lambda>i. 8444249301319688) = (''digital_wallet'', (\<lambda>i. 8444249301319688))"
  by (simp add: random_choices_def hr_random Let_def fl_hr_scaled)

lemma hr_type:
  "random_choices [''purchase'', ''withdrawal'', ''transfer'', ''refund'']
     [75, 15, 8, 2] (\<lambda>i. 8444249301319688) = (''transfer'', (\<lambda>i. 8444249301319688))"
  by (simp add: random_choices_def hr_random Let_def fl_hr_scaled)

lemma hr_status:
  "random_choices [''completed'', ''failed'', ''pending''] [92, 6, 2]
     (\<lambda>i. 8444249301319688) = (''failed'', (\<lambda>i. 8444249301319688))"
  by (simp add: random_choices_def hr_random Let_def fl_hr_scaled)

lemma hr_amount:
  "draw_amount ''financial'' (\<lambda>i. 8444249301319688) = (94063 / 100, (\<lambda>i. 8444249301319688))"
  by (simp add: draw_amount_def amount_ranges_def random_uniform_def hr_random Let_def fl_7_10
      fl_hr_product fl_hr_sum round2_hr)

lemma hr_ip:
  "draw_ip edge_env (\<lambda>i. 8444249301319688) f =
     (''192.5.5.'' @ digits (f 0 mod 256), (\<lambda>i. 8444249301319688), (\<lambda>i. f (Suc i)))"
  by (simp add: draw_ip_def hr_random fake_def next_raw_def edge_env_def demo_env_def fl_1_20)

lemma hr_noise: "random_randint (- 5) 10 (\<lambda>i. 8444249301319688) = (3, (\<lambda>i. 8444249301319688))"
  by (simp add: random_randint_def next_raw_def)

lemma hr_private: "is_private_ip (CHR ''1'' # CHR ''9'' # CHR ''2'' # CHR ''.'' # s)"
  by (simp add: is_private_ip_def)

lemma hr_fraud: "draw_is_fraud 83 (\<lambda>i. 8444249301319688) = (False, (\<lambda>i. 8444249301319688))"
  by (simp add: draw_is_fraud_def hr_random fl_3_10)

lemma hr_locals:
  assumes "users \<noteq> []" "rnd w = (\<lambda>i. 8444249301319688)"
  shows "\<exists>l. draw_locals edge_env users w = Inr l \<and> l_fraud_score l = 80 \<and>
     l_rnd l = (\<lambda>i. 8444249301319688) \<and> l_is_private_ip l \<and>
     l_merchant_category l = ''financial'' \<and> l_amount l = 94063 / 100 \<and>
     prefix ''192.'' (l_ip_address l)"
proof -
  have fk: "\<And>p f. fake p f = (p (f 0), \<lambda>i. f (Suc i))" by (simp add: fake_def next_raw_def)
  have sc: "fraud_score (94063 / 100) 8 ''financial'' ''digital_wallet'' ''failed'' True = 80"
    by (simp add: fraud_score_sum)
  show ?thesis
    using assms
    by (simp add: draw_locals_def and_then_def const_choice MERCHANTS_def COUNTRIES_def
        hr_hour hr_amount hr_method hr_type hr_status hr_ip hr_private replace_hour_def fk sc
        Let_def)
qed

lemma hr_record:
  assumes "users \<noteq> []" "rnd w = (\<lambda>i. 8444249301319688)"
  shows "\<exists>r w'. generate_record edge_env users w = Inr (r, w') \<and>
     risk_score r = 83 \<and> \<not> is_fraud r"
proof -
  from hr_locals [OF assms] obtain l where l: "draw_locals edge_env users w = Inr l"
    "l_fraud_score l = 80" "l_rnd l = (\<lambda>i. 8444249301319688)" by blast
  have risk: "risk_score (fst (finish_record edge_env l)) = 83"
    by (simp add: finish_record_risk l hr_noise)
  have "\<not> is_fraud (fst (finish_record edge_env l))"
    unfolding finish_record_flag risk by (simp add: l hr_noise hr_fraud)
  with risk l(1) show ?thesis
    by (simp add: generate_record_def and_then_def) (metis prod.collapse)
qed

lemma chunk_worlds_0:
  "0 < n \<Longrightarrow> rnd (chunk_worlds e n w ! 0) = rnd w"
proof -
  assume "0 < n"
  then obtain m where m: "nat n = Suc m" by (cases "nat n") simp_all
  show ?thesis by (simp add: chunk_worlds_def split_beta m)
qed

lemma hr_first_record:
  assumes "generate_fraud_data_chunk edge_env 8 high_risk_world = Inr (rs, w')"
  shows "0 < length rs \<and> risk_score (rs ! 0) = 83 \<and> \<not> is_fraud (rs ! 0)"
proof -
  from chunk_Inr [OF assms] have len: "length rs = 8" and
    rec: "\<exists>w2. generate_record edge_env (user_pool edge_env 8 high_risk_world)
            (chunk_worlds edge_env 8 high_risk_world ! 0) = Inr (rs ! 0, w2)" by simp_all
  have pool: "user_pool edge_env 8 high_risk_world \<noteq> []"
    using user_pool_length [of edge_env 8 high_risk_world] by auto
  have "rnd (chunk_worlds edge_env 8 high_risk_world ! 0) = (\<lambda>i. 8444249301319688)"
    by (simp add: chunk_worlds_0 high_risk_world_def)
  from hr_record [OF pool this] rec have "risk_score (rs ! 0) = 83 \<and> \<not> is_fraud (rs ! 0)"
    by auto
  with len show ?thesis by simp
qed

lemma chunk_locals:
  assumes "generate_fraud_data_chunk e n w = Inr (rs, w')" and "k < length rs"
  obtains l where "draw_locals e (user_pool e n w) (chunk_worlds e n w ! k) = Inr l"
    and "rs ! k = fst (finish_record e l)"
proof -
  from chunk_Inr [OF assms(1)] assms(2) obtain w2 where
    "generate_record e (user_pool e n w) (chunk_worlds e n w ! k) = Inr (rs ! k, w2)" by blast
  then obtain l where "draw_locals e (user_pool e n w) (chunk_worlds e n w ! k) = Inr l"
    "finish_record e l = (rs ! k, w2)" unfolding generate_record_Inr by blast
  with that show ?thesis by simp
qed

section \<open>The claims\<close>

text \<open>
  Claim C1: for every count of at least 1 the synthesizer returns that many records and
  raises nothing. The code does not: a count from 1 to 7 gives \<open>num_records // 8 = 0\<close>,
  so the pool of users is empty and the first \<open>random.choice(users)\<close> raises
  \<open>IndexError\<close>. The theorem evaluates the synthesizer at the counts 1 and 7, for
  every environment and every state of the generators.
\<close>

theorem C1_small_count_raises:
  "generate_fraud_data_chunk e 1 w = Inl IndexError \<and>
   generate_fraud_data_chunk e 7 w = Inl IndexError"
  by (simp add: chunk_small)

text \<open>
  Claim C2: a count of zero or below fails with an invalid-argument error. The
  synthesizer validates nothing: \<open>range\<close> of a count of zero or below is empty, so no
  user is made, no record is drawn and the empty batch is returned, the generators
  untouched. As amended: a count of zero or below raises nothing and returns the empty
  batch; a count of 8 or more raises nothing and returns that many records.
\<close>

theorem C2_counts_without_error:
  "(n \<le> 0 \<longrightarrow> generate_fraud_data_chunk e n w = Inr ([], w)) \<and>
   (8 \<le> n \<longrightarrow> (\<exists>rs w'. generate_fraud_data_chunk e n w = Inr (rs, w') \<and> length rs = nat n))"
proof (intro conjI impI)
  assume "n \<le> 0"
  then show "generate_fraud_data_chunk e n w = Inr ([], w)" by (rule chunk_nonpos)
next
  assume "8 \<le> n"
  from chunk_ok [OF this, of e w] obtain rs w' where
    g: "generate_fraud_data_chunk e n w = Inr (rs, w')" by blast
  from chunk_Inr [OF g] have "length rs = nat n" by simp
  with g show "\<exists>rs w'. generate_fraud_data_chunk e n w = Inr (rs, w') \<and> length rs = nat n"
    by blast
qed

theorem C2_counts_without_error_witness:
  "generate_fraud_data_chunk (demo_env (\<lambda>s. 0)) (- 3) demo_world = Inr ([], demo_world) \<and>
   (\<exists>rs w'. generate_fraud_data_chunk (demo_env (\<lambda>s. 0)) 8 demo_world = Inr (rs, w') \<and>
      length rs = 8)"
  using C2_counts_without_error [of "- 3" "demo_env (\<lambda>s. 0)" demo_world]
    C2_counts_without_error [of 8 "demo_env (\<lambda>s. 0)" demo_world]
  by simp

text \<open>The count 0 is answered with the empty batch, not with an error.\<close>

theorem C2_zero_count_counterexample:
  "generate_fraud_data_chunk (demo_env (\<lambda>s. 0)) 0 demo_world = Inr ([], demo_world)"
  by (simp add: chunk_nonpos)

text \<open>
  Claim C3: the pool of users of a call with count \<open>N\<close> has \<open>max(1, N // 8)\<close> members.
  The code builds \<open>N // 8\<close> users, with no lower bound of one: at the count 7 the pool
  is empty, where the claim says one member (and the call then raises, as under C1).
\<close>

theorem C3_small_count_pool_empty:
  "user_pool e 7 w = [] \<and> int (length (user_pool e 7 w)) \<noteq> max 1 (7 div 8)"
proof -
  have "length (user_pool e 7 w) = 0" by (simp add: user_pool_length)
  then show ?thesis by simp
qed

text \<open>
  Claim C4: under the fixed seed, two runs with the same configuration write the same
  file. The seed fixes both generators, but \<open>device_id\<close> is computed with the builtin
  \<open>hash\<close> of a string, which the seed does not reach: it is salted per process. Two
  runs that agree on the seed, the state of both generators, the destination, the total
  and the chunk size, and differ only in the string hash, write different files.
\<close>

theorem C4_hash_salt_changes_the_file:
  "stream_to_csv (demo_env (\<lambda>s. 0)) ''fraud_data.csv'' ''output'' 8 8 demo_world (\<lambda>p. []) \<noteq>
   stream_to_csv (demo_env (\<lambda>s. 1)) ''fraud_data.csv'' ''output'' 8 8 demo_world (\<lambda>p. [])"
proof
  let ?p = "(''output'', ''fraud_data.csv'')"
  assume eq: "stream_to_csv (demo_env (\<lambda>s. 0)) ''fraud_data.csv'' ''output'' 8 8 demo_world (\<lambda>p. []) =
   stream_to_csv (demo_env (\<lambda>s. 1)) ''fraud_data.csv'' ''output'' 8 8 demo_world (\<lambda>p. [])"
  from run_device_ids [of 0 "''fraud_data.csv''" "''output''" demo_world "\<lambda>p. []"]
  obtain rs0 where r0:
    "stream_to_csv (demo_env (\<lambda>s. 0)) ''fraud_data.csv'' ''output'' 8 8 demo_world (\<lambda>p. []) =
       (None, (\<lambda>p. [])(?p := [\<lparr>header = True, rows = rs0\<rparr>]))"
    "rs0 \<noteq> []" "\<forall>r \<in> set rs0. device_id r = ''device_0000''"
    by (auto simp: format_04d_0)
  from run_device_ids [of 1 "''fraud_data.csv''" "''output''" demo_world "\<lambda>p. []"]
  obtain rs1 where r1:
    "stream_to_csv (demo_env (\<lambda>s. 1)) ''fraud_data.csv'' ''output'' 8 8 demo_world (\<lambda>p. []) =
       (None, (\<lambda>p. [])(?p := [\<lparr>header = True, rows = rs1\<rparr>]))"
    "\<forall>r \<in> set rs1. device_id r = ''device_0001''"
    by (auto simp: format_04d_1)
  from eq r0(1) r1(1) have
    "((\<lambda>p. [])(?p := [\<lparr>header = True, rows = rs0\<rparr>])) ?p = ((\<lambda>p. [])(?p := [\<lparr>header = True, rows = rs1\<rparr>])) ?p"
    by simp
  then have "rs0 = rs1" by simp
  with r0(2,3) r1(2) have "device_id (hd rs0) = ''device_0000''" "device_id (hd rs0) = ''device_0001''"
    by simp_all
  then show False by simp
qed

text \<open>
  Claim C5: the risk score of every generated record is an integer from 0 to 100,
  whatever the draws were. The theorem holds for every state of the generators, hence
  for every noise term the generator can produce.
\<close>

theorem C5_risk_score_clamped:
  assumes "generate_fraud_data_chunk e n w = Inr (rs, w')" and "r \<in> set rs"
  shows "0 \<le> risk_score r \<and> risk_score r \<le> 100"
proof -
  from assms obtain w1 w2 where "generate_record e (user_pool e n w) w1 = Inr (r, w2)"
    by (rule chunk_record)
  from generate_record_facts [OF this] obtain noise where
    "risk_score r = max 0 (min 100 (fraud_score (transaction_amount r)
       (dt_hour (transaction_timestamp r)) (merchant_category r) (payment_method r)
       (transaction_status r) (is_private_ip (ip_address r)) + noise))" by blast
  then show ?thesis by simp
qed

theorem C5_risk_score_clamped_witness:
  "\<exists>rs w'. generate_fraud_data_chunk (demo_env (\<lambda>s. 0)) 8 demo_world = Inr (rs, w') \<and>
     length rs = 8 \<and> list_all (\<lambda>r. 0 \<le> risk_score r \<and> risk_score r \<le> 100) rs"
proof -
  from chunk_ok [of 8 "demo_env (\<lambda>s. 0)" demo_world] obtain rs w' where
    g: "generate_fraud_data_chunk (demo_env (\<lambda>s. 0)) 8 demo_world = Inr (rs, w')" by auto
  from chunk_Inr [OF g] have "length rs = 8" by simp
  moreover have "list_all (\<lambda>r. 0 \<le> risk_score r \<and> risk_score r \<le> 100) rs"
    using C5_risk_score_clamped [OF g] by (simp add: list_all_iff)
  ultimately show ?thesis using g by blast
qed

text \<open>
  Claim C6: the fraud flag of a generated record is true only if its risk score is above
  70 and a draw of \<open>random()\<close> is below 0.3, and a risk score above 70 does not force
  the flag. For the record at any position of a returned batch, with the local variables
  and the state of the generator that the loop had reached at line 100 of that pass: the
  flag is true exactly when the score is above 70 and the draw that follows the noise
  draw is below 0.3 (the double 0.3 and the fraction three tenths separate the same
  draws). The last conjunct is a record with risk score 83 whose flag is false.
\<close>

theorem C6_fraud_flag_gated:
  assumes "generate_fraud_data_chunk e n w = Inr (rs, w')" and "k < length rs"
  shows "(\<exists>l. draw_locals e (user_pool e n w) (chunk_worlds e n w ! k) = Inr l \<and>
      is_fraud (rs ! k) =
        (70 < risk_score (rs ! k) \<and>
         fst (random_random (snd (random_randint (- 5) 10 (l_rnd l)))) < 3 / 10)) \<and>
    (is_fraud (rs ! k) \<longrightarrow> 70 < risk_score (rs ! k)) \<and>
    (\<exists>r0 w0. generate_record edge_env [''u''] high_risk_world = Inr (r0, w0) \<and>
       70 < risk_score r0 \<and> \<not> is_fraud r0)"
proof -
  from assms obtain l where l: "draw_locals e (user_pool e n w) (chunk_worlds e n w ! k) = Inr l"
    and r: "rs ! k = fst (finish_record e l)" by (rule chunk_locals)
  have flag: "is_fraud (rs ! k) =
        (70 < risk_score (rs ! k) \<and>
         fst (random_random (snd (random_randint (- 5) 10 (l_rnd l)))) < 3 / 10)"
    unfolding r by (subst finish_record_flag) (simp only: draw_is_fraud_gate)
  then have a: "is_fraud (rs ! k) \<longrightarrow> 70 < risk_score (rs ! k)" by simp
  have "\<exists>r0 w0. generate_record edge_env [''u''] high_risk_world = Inr (r0, w0) \<and>
       risk_score r0 = 83 \<and> \<not> is_fraud r0"
    by (rule hr_record) (simp_all add: high_risk_world_def)
  then have b: "\<exists>r0 w0. generate_record edge_env [''u''] high_risk_world = Inr (r0, w0) \<and>
       70 < risk_score r0 \<and> \<not> is_fraud r0" by auto
  from l flag have "\<exists>l. draw_locals e (user_pool e n w) (chunk_worlds e n w ! k) = Inr l \<and>
      is_fraud (rs ! k) =
        (70 < risk_score (rs ! k) \<and>
         fst (random_random (snd (random_randint (- 5) 10 (l_rnd l)))) < 3 / 10)" by blast
  with a b show ?thesis by (intro conjI)
qed

theorem C6_fraud_flag_gated_witness:
  "\<exists>rs w' l. generate_fraud_data_chunk edge_env 8 high_risk_world = Inr (rs, w') \<and>
     draw_locals edge_env (user_pool edge_env 8 high_risk_world)
       (chunk_worlds edge_env 8 high_risk_world ! 0) = Inr l \<and>
     risk_score (rs ! 0) = 83 \<and> \<not> is_fraud (rs ! 0) \<and>
     \<not> fst (random_random (snd (random_randint (- 5) 10 (l_rnd l)))) < 3 / 10"
proof -
  from chunk_ok [of 8 edge_env high_risk_world] obtain rs w' where
    g: "generate_fraud_data_chunk edge_env 8 high_risk_world = Inr (rs, w')" by auto
  from hr_first_record [OF g] have h: "0 < length rs" "risk_score (rs ! 0) = 83"
    "\<not> is_fraud (rs ! 0)" by simp_all
  from C6_fraud_flag_gated [OF g h(1)] obtain l where
    "draw_locals edge_env (user_pool edge_env 8 high_risk_world)
       (chunk_worlds edge_env 8 high_risk_world ! 0) = Inr l"
    "is_fraud (rs ! 0) =
        (70 < risk_score (rs ! 0) \<and>
         fst (random_random (snd (random_randint (- 5) 10 (l_rnd l)))) < 3 / 10)" by blast
  with g h show ?thesis by auto
qed

text \<open>
  Claim C7: the risk score of every generated record is the clamp to the range from 0
  to 100 of the sum of the seven conditional terms and a noise term. The terms are
  written out as the claim lists them, over the fields of the record; the private-address
  flag is the prefix test on the record's address; the noise is the value that
  \<open>random.randint(-5, 10)\<close> returns in the state the generator had reached at line 100
  of that pass, an integer from -5 to 10.
\<close>

theorem C7_risk_score_formula:
  assumes "generate_fraud_data_chunk e n w = Inr (rs, w')" and "k < length rs"
  shows "\<exists>l noise. draw_locals e (user_pool e n w) (chunk_worlds e n w ! k) = Inr l \<and>
    noise = fst (random_randint (- 5) 10 (l_rnd l)) \<and> - 5 \<le> noise \<and> noise \<le> 10 \<and>
    risk_score (rs ! k) = max 0 (min 100 (
        (if 500 < transaction_amount (rs ! k) then 30 else 0)
      + (if 1000 < transaction_amount (rs ! k) then 20 else 0)
      + (if dt_hour (transaction_timestamp (rs ! k)) < 6 \<or>
            23 < dt_hour (transaction_timestamp (rs ! k))
         then 15 else 0)
      + (if merchant_category (rs ! k) = ''online'' then 10 else 0)
      + (if payment_method (rs ! k) = ''digital_wallet'' then 5 else 0)
      + (if transaction_status (rs ! k) = ''failed'' then 25 else 0)
      + (if is_private_ip (ip_address (rs ! k)) then 20 else 0)
      + noise))"
proof -
  from assms obtain l where l: "draw_locals e (user_pool e n w) (chunk_worlds e n w ! k) = Inr l"
    and r: "rs ! k = fst (finish_record e l)" by (rule chunk_locals)
  define noise where "noise = fst (random_randint (- 5) 10 (l_rnd l))"
  note d = draw_locals_facts [OF l]
  have sc: "l_fraud_score l = fraud_score (transaction_amount (rs ! k))
      (dt_hour (transaction_timestamp (rs ! k))) (merchant_category (rs ! k))
      (payment_method (rs ! k)) (transaction_status (rs ! k))
      (is_private_ip (ip_address (rs ! k)))"
    using d by (simp add: r finish_record_fields)
  have "risk_score (rs ! k) = max 0 (min 100 (l_fraud_score l + noise))"
    by (simp only: r finish_record_risk noise_def)
  then have risk: "risk_score (rs ! k) = max 0 (min 100 (
        (if 500 < transaction_amount (rs ! k) then 30 else 0)
      + (if 1000 < transaction_amount (rs ! k) then 20 else 0)
      + (if dt_hour (transaction_timestamp (rs ! k)) < 6 \<or>
            23 < dt_hour (transaction_timestamp (rs ! k))
         then 15 else 0)
      + (if merchant_category (rs ! k) = ''online'' then 10 else 0)
      + (if payment_method (rs ! k) = ''digital_wallet'' then 5 else 0)
      + (if transaction_status (rs ! k) = ''failed'' then 25 else 0)
      + (if is_private_ip (ip_address (rs ! k)) then 20 else 0)
      + noise))"
    unfolding sc fraud_score_sum .
  have n1: "noise = fst (random_randint (- 5) 10 (l_rnd l))" by (simp only: noise_def)
  have n3: "- 5 \<le> noise" and n4: "noise \<le> 10"
    using noise_range [of "l_rnd l"] by (simp_all only: noise_def)
  show ?thesis
    by (rule exI [of _ l], rule exI [of _ noise]) (intro conjI l n1 n3 n4 risk)
qed

theorem C7_risk_score_formula_witness:
  "\<exists>rs w' l. generate_fraud_data_chunk edge_env 8 high_risk_world = Inr (rs, w') \<and>
     draw_locals edge_env (user_pool edge_env 8 high_risk_world)
       (chunk_worlds edge_env 8 high_risk_world ! 0) = Inr l \<and>
     fst (random_randint (- 5) 10 (l_rnd l)) = 3 \<and> risk_score (rs ! 0) = 83"
proof -
  from chunk_ok [of 8 edge_env high_risk_world] obtain rs w' where
    g: "generate_fraud_data_chunk edge_env 8 high_risk_world = Inr (rs, w')" by auto
  from hr_first_record [OF g] have h: "0 < length rs" "risk_score (rs ! 0) = 83" by simp_all
  from C7_risk_score_formula [OF g h(1)] obtain l noise where l:
    "draw_locals edge_env (user_pool edge_env 8 high_risk_world)
       (chunk_worlds edge_env 8 high_risk_world ! 0) = Inr l"
    "noise = fst (random_randint (- 5) 10 (l_rnd l))" by blast
  have pool: "user_pool edge_env 8 high_risk_world \<noteq> []"
    using user_pool_length [of edge_env 8 high_risk_world] by auto
  have "rnd (chunk_worlds edge_env 8 high_risk_world ! 0) = (\<lambda>i. 8444249301319688)"
    by (simp add: chunk_worlds_0 high_risk_world_def)
  from hr_locals [OF pool this] l(1) have "l_rnd l = (\<lambda>i. 8444249301319688)" by auto
  then have "fst (random_randint (- 5) 10 (l_rnd l)) = 3" by (simp add: hr_noise)
  with g h(2) l(1) show ?thesis by blast
qed

text \<open>
  Claim C8: the writer takes the offsets 0, \<open>chunk_size\<close>, twice \<open>chunk_size\<close> and so
  on below the total, asks for \<open>min(chunk_size, total - start)\<close> records each time,
  appends each batch and writes the header with the first batch only; a chunk size of at
  least the total gives one batch and one header. The writer does ask for those counts,
  and the run of 120000 in chunks of 50000 is as the claim says (\<open>stream_three_batches\<close>),
  but a batch of 1 to 7 records raises in the synthesizer, as under C1: with a total of 5
  and a chunk size of 10 nothing is written, and with a total of 13 and a chunk size of
  8 the first batch of 8 is written with the header and the batch of 5 is lost.
\<close>

theorem C8_short_last_batch_raises:
  "stream_to_csv e f dir 5 10 w d = (Some IndexError, d) \<and>
   (\<exists>rs. stream_to_csv e f dir 13 8 w d =
           (Some IndexError, d((dir, f) := d (dir, f) @ [\<lparr>header = True, rows = rs\<rparr>])) \<and>
         length rs = 8)"
proof -
  from stream_short_last_batch [of e f dir w d] obtain rs where
    "stream_to_csv e f dir 13 8 w d = (Some IndexError, to_csv rs (dir, f) True d)"
    "length rs = 8" by blast
  then have "\<exists>rs. stream_to_csv e f dir 13 8 w d =
           (Some IndexError, d((dir, f) := d (dir, f) @ [\<lparr>header = True, rows = rs\<rparr>])) \<and>
         length rs = 8"
    by (auto simp: to_csv_def)
  with stream_small_total [of e f dir w d] show ?thesis by (intro conjI)
qed

text \<open>
  Claim C9: for every generated record, the private-address flag is true exactly when
  the leading group of the generated address, the characters before its first dot, is
  10, 192 or 172; that is, when the address starts with \<open>10.\<close>, \<open>192.\<close> or \<open>172.\<close>.
  The flag is the local variable \<open>is_private_ip\<close> of the pass that made the record, and
  the address is the one the record carries.
\<close>

theorem C9_private_flag_leading_group:
  assumes "generate_fraud_data_chunk e n w = Inr (rs, w')" and "k < length rs"
  shows "\<exists>l. draw_locals e (user_pool e n w) (chunk_worlds e n w ! k) = Inr l \<and>
    ip_address (rs ! k) = l_ip_address l \<and>
    l_is_private_ip l =
      (CHR ''.'' \<in> set (ip_address (rs ! k)) \<and>
       takeWhile (\<lambda>c. c \<noteq> CHR ''.'') (ip_address (rs ! k)) \<in> {''10'', ''192'', ''172''}) \<and>
    l_is_private_ip l =
      (prefix ''10.'' (ip_address (rs ! k)) \<or> prefix ''192.'' (ip_address (rs ! k)) \<or>
       prefix ''172.'' (ip_address (rs ! k)))"
proof -
  from assms obtain l where l: "draw_locals e (user_pool e n w) (chunk_worlds e n w ! k) = Inr l"
    and r: "rs ! k = fst (finish_record e l)" by (rule chunk_locals)
  let ?ip = "ip_address (rs ! k)"
  have ip: "?ip = l_ip_address l" by (simp add: r finish_record_fields)
  from draw_locals_facts [OF l] have p: "l_is_private_ip l = is_private_ip ?ip" by (simp add: ip)
  have a: "prefix ''10.'' ?ip \<longleftrightarrow> CHR ''.'' \<in> set ?ip \<and> takeWhile (\<lambda>c. c \<noteq> CHR ''.'') ?ip = ''10''"
    using prefix_sep_iff [of "CHR ''.''" "''10''" ?ip] by simp
  have b: "prefix ''192.'' ?ip \<longleftrightarrow> CHR ''.'' \<in> set ?ip \<and> takeWhile (\<lambda>c. c \<noteq> CHR ''.'') ?ip = ''192''"
    using prefix_sep_iff [of "CHR ''.''" "''192''" ?ip] by simp
  have c: "prefix ''172.'' ?ip \<longleftrightarrow> CHR ''.'' \<in> set ?ip \<and> takeWhile (\<lambda>c. c \<noteq> CHR ''.'') ?ip = ''172''"
    using prefix_sep_iff [of "CHR ''.''" "''172''" ?ip] by simp
  have pre: "is_private_ip ?ip = (prefix ''10.'' ?ip \<or> prefix ''192.'' ?ip \<or> prefix ''172.'' ?ip)"
    by (simp add: is_private_ip_def)
  have grp: "is_private_ip ?ip =
      (CHR ''.'' \<in> set ?ip \<and> takeWhile (\<lambda>c. c \<noteq> CHR ''.'') ?ip \<in> {''10'', ''192'', ''172''})"
    unfolding pre a b c by blast
  show ?thesis
    by (rule exI [of _ l]) (intro conjI l ip p [unfolded grp] p [unfolded pre])
qed

theorem C9_private_flag_leading_group_witness:
  "\<exists>rs w' l. generate_fraud_data_chunk edge_env 8 high_risk_world = Inr (rs, w') \<and>
     draw_locals edge_env (user_pool edge_env 8 high_risk_world)
       (chunk_worlds edge_env 8 high_risk_world ! 0) = Inr l \<and>
     ip_address (rs ! 0) = l_ip_address l \<and> l_is_private_ip l \<and>
     prefix ''192.'' (ip_address (rs ! 0))"
proof -
  from chunk_ok [of 8 edge_env high_risk_world] obtain rs w' where
    g: "generate_fraud_data_chunk edge_env 8 high_risk_world = Inr (rs, w')" by auto
  from hr_first_record [OF g] have h: "0 < length rs" by simp
  from C9_private_flag_leading_group [OF g h] obtain l where l:
    "draw_locals edge_env (user_pool edge_env 8 high_risk_world)
       (chunk_worlds edge_env 8 high_risk_world ! 0) = Inr l"
    "ip_address (rs ! 0) = l_ip_address l"
    "l_is_private_ip l =
      (prefix ''10.'' (ip_address (rs ! 0)) \<or> prefix ''192.'' (ip_address (rs ! 0)) \<or>
       prefix ''172.'' (ip_address (rs ! 0)))" by blast
  have pool: "user_pool edge_env 8 high_risk_world \<noteq> []"
    using user_pool_length [of edge_env 8 high_risk_world] by auto
  have "rnd (chunk_worlds edge_env 8 high_risk_world ! 0) = (\<lambda>i. 8444249301319688)"
    by (simp add: chunk_worlds_0 high_risk_world_def)
  from hr_locals [OF pool this] l(1) have pr: "l_is_private_ip l"
    and ipv: "prefix ''192.'' (l_ip_address l)" by auto
  from ipv l(2) have "prefix ''192.'' (ip_address (rs ! 0))" by simp
  with g l(1,2) pr show ?thesis by blast
qed

text \<open>
  Claim C10: the amount of a generated record never exceeds 1000 (no range of
  \<open>amount_ranges\<close>, the default included, has a maximum above 1000, and the redraw
  stays below 300), so the term for an amount above 1000 never contributes: the risk
  score is the clamped sum of the six other terms and the noise.
\<close>

theorem C10_amount_at_most_1000:
  assumes "generate_fraud_data_chunk e n w = Inr (rs, w')" and "r \<in> set rs"
  shows "snd (amount_ranges c) \<le> 1000 \<and> transaction_amount r \<le> 1000 \<and>
    (\<exists>noise. - 5 \<le> noise \<and> noise \<le> 10 \<and>
    risk_score r = max 0 (min 100 (
        (if 500 < transaction_amount r then 30 else 0)
      + (if dt_hour (transaction_timestamp r) < 6 \<or> 23 < dt_hour (transaction_timestamp r)
         then 15 else 0)
      + (if merchant_category r = ''online'' then 10 else 0)
      + (if payment_method r = ''digital_wallet'' then 5 else 0)
      + (if transaction_status r = ''failed'' then 25 else 0)
      + (if is_private_ip (ip_address r) then 20 else 0)
      + noise)))"
proof -
  from assms obtain w1 w2 where "generate_record e (user_pool e n w) w1 = Inr (r, w2)"
    by (rule chunk_record)
  from generate_record_facts [OF this] obtain noise where
    a: "transaction_amount r \<le> 1000" and
    n: "- 5 \<le> noise" "noise \<le> 10"
    "risk_score r = max 0 (min 100 (fraud_score (transaction_amount r)
       (dt_hour (transaction_timestamp r)) (merchant_category r) (payment_method r)
       (transaction_status r) (is_private_ip (ip_address r)) + noise))" by blast
  have z: "(if 1000 < transaction_amount r then 20 else 0) = (0::int)" using a by simp
  have fs: "fraud_score (transaction_amount r)
       (dt_hour (transaction_timestamp r)) (merchant_category r) (payment_method r)
       (transaction_status r) (is_private_ip (ip_address r)) =
        (if 500 < transaction_amount r then 30 else 0)
      + (if dt_hour (transaction_timestamp r) < 6 \<or> 23 < dt_hour (transaction_timestamp r)
         then 15 else 0)
      + (if merchant_category r = ''online'' then 10 else 0)
      + (if payment_method r = ''digital_wallet'' then 5 else 0)
      + (if transaction_status r = ''failed'' then 25 else 0)
      + (if is_private_ip (ip_address r) then 20 else 0)"
    unfolding fraud_score_sum z by (simp only: add_0_right)
  have "\<exists>noise. - 5 \<le> noise \<and> noise \<le> 10 \<and>
    risk_score r = max 0 (min 100 (
        (if 500 < transaction_amount r then 30 else 0)
      + (if dt_hour (transaction_timestamp r) < 6 \<or> 23 < dt_hour (transaction_timestamp r)
         then 15 else 0)
      + (if merchant_category r = ''online'' then 10 else 0)
      + (if payment_method r = ''digital_wallet'' then 5 else 0)
      + (if transaction_status r = ''failed'' then 25 else 0)
      + (if is_private_ip (ip_address r) then 20 else 0)
      + noise))"
    by (rule exI [of _ noise]) (intro conjI n(1) n(2) n(3) [unfolded fs])
  then have ex: "\<exists>noise. - 5 \<le> noise \<and> noise \<le> 10 \<and>
    risk_score r = max 0 (min 100 (
        (if 500 < transaction_amount r then 30 else 0)
      + (if dt_hour (transaction_timestamp r) < 6 \<or> 23 < dt_hour (transaction_timestamp r)
         then 15 else 0)
      + (if merchant_category r = ''online'' then 10 else 0)
      + (if payment_method r = ''digital_wallet'' then 5 else 0)
      + (if transaction_status r = ''failed'' then 25 else 0)
      + (if is_private_ip (ip_address r) then 20 else 0)
      + noise))" .
  have r1: "snd (amount_ranges c) \<le> 1000" using amount_ranges_bounds [of c] by simp
  show ?thesis by (rule conjI [OF r1 conjI [OF a ex]])
qed

theorem C10_amount_at_most_1000_witness:
  "\<exists>rs w'. generate_fraud_data_chunk edge_env 8 high_risk_world = Inr (rs, w') \<and>
     length rs = 8 \<and> list_all (\<lambda>r. transaction_amount r \<le> 1000) rs"
proof -
  from chunk_ok [of 8 edge_env high_risk_world] obtain rs w' where
    g: "generate_fraud_data_chunk edge_env 8 high_risk_world = Inr (rs, w')" by auto
  from chunk_Inr [OF g] have "length rs = 8" by simp
  moreover have "\<forall>r \<in> set rs. transaction_amount r \<le> 1000"
    using C10_amount_at_most_1000 [OF g] by blast
  then have "list_all (\<lambda>r. transaction_amount r \<le> 1000) rs"
    by (simp add: list_all_iff)
  ultimately show ?thesis using g by blast
qed

end
